theory Spec2Isabelle
  imports Complex_Main "HOL-Library.Sublist"
begin

section \<open>JavaScript string helpers\<close>

text \<open>
  Strings are \<open>char list\<close>. The pipeline's URLs and slugs are ASCII (the platform's URL
  serialiser emits ASCII only), so case conversion is modelled on the ASCII letters and
  every other character is left as it is.
\<close>

definition is_upper :: "char \<Rightarrow> bool" where
  "is_upper c = (c \<in> set ''ABCDEFGHIJKLMNOPQRSTUVWXYZ'')"

definition is_lower :: "char \<Rightarrow> bool" where
  "is_lower c = (c \<in> set ''abcdefghijklmnopqrstuvwxyz'')"

definition is_digit :: "char \<Rightarrow> bool" where
  "is_digit c = (c \<in> set ''0123456789'')"

definition lower_char :: "char \<Rightarrow> char" where
  "lower_char c =
     (case map_of (zip ''ABCDEFGHIJKLMNOPQRSTUVWXYZ'' ''abcdefghijklmnopqrstuvwxyz'') c of
        Some d \<Rightarrow> d
      | None \<Rightarrow> c)"

text \<open>\<^verbatim>\<open>s.toLowerCase()\<close>\<close>

definition toLowerCase :: "string \<Rightarrow> string" where
  "toLowerCase s = map lower_char s"

text \<open>\<^verbatim>\<open>s.endsWith(t)\<close> and \<^verbatim>\<open>s.includes(t)\<close>\<close>

definition endsWith :: "string \<Rightarrow> string \<Rightarrow> bool" where
  "endsWith s t = suffix t s"

definition str_includes :: "string \<Rightarrow> string \<Rightarrow> bool" where
  "str_includes s t = sublist t s"

text \<open>\<^verbatim>\<open>s.split(c)\<close> for a one-character separator: always at least one piece.\<close>

fun split_on :: "char \<Rightarrow> string \<Rightarrow> string list" where
  "split_on c [] = [[]]"
| "split_on c (x # xs) =
     (if x = c then [] # split_on c xs
      else (case split_on c xs of
              [] \<Rightarrow> [[x]]
            | p # ps \<Rightarrow> (x # p) # ps))"

text \<open>\<^verbatim>\<open>/^\d+$/.test(s)\<close>\<close>

definition all_digits :: "string \<Rightarrow> bool" where
  "all_digits s = (s \<noteq> [] \<and> list_all is_digit s)"

text \<open>\<^verbatim>\<open>s.replace(/\.html?$/i, "")\<close>: a final \<^verbatim>\<open>.html\<close> or \<^verbatim>\<open>.htm\<close>, in any case, is cut.\<close>

definition strip_html_ext :: "string \<Rightarrow> string" where
  "strip_html_ext s =
     (if endsWith (toLowerCase s) ''.html'' then take (length s - 5) s
      else if endsWith (toLowerCase s) ''.htm'' then take (length s - 4) s
      else s)"

text \<open>\<^verbatim>\<open>s.replace(/_/g, "-")\<close>\<close>

definition underscores_to_hyphens :: "string \<Rightarrow> string" where
  "underscores_to_hyphens s = map (\<lambda>c. if c = CHR ''_'' then CHR ''-'' else c) s"

section \<open>The platform's URL class\<close>

text \<open>
  \<^verbatim>\<open>new URL(s)\<close> is the platform's WHATWG URL parser, not code of the repository. The
  record holds what the parser keeps of a URL; \<open>URL_toString\<close> and \<open>URL_pathname\<close> are
  the standard's serialiser, and \<open>URL_clear_search\<close> is the assignment
  \<^verbatim>\<open>urlObj.search = ""\<close>, which removes the query.
\<close>

record url =
  url_scheme :: string
  url_host :: string
  url_path :: "string list"
  url_query :: "string option"
  url_fragment :: "string option"

definition URL_pathname :: "url \<Rightarrow> string" where
  "URL_pathname u = concat (map (\<lambda>seg. CHR ''/'' # seg) (url_path u))"

definition URL_toString :: "url \<Rightarrow> string" where
  "URL_toString u =
     url_scheme u @ ''://'' @ url_host u @ URL_pathname u
       @ (case url_query u of None \<Rightarrow> [] | Some q \<Rightarrow> CHR ''?'' # q)
       @ (case url_fragment u of None \<Rightarrow> [] | Some f \<Rightarrow> CHR ''#'' # f)"

definition URL_clear_search :: "url \<Rightarrow> url" where
  "URL_clear_search u = u\<lparr>url_query := None\<rparr>"

text \<open>
  The parser is modelled on the URLs the pipeline feeds it: printable ASCII,
  scheme \<^verbatim>\<open>http\<close> or \<^verbatim>\<open>https\<close> followed by \<^verbatim>\<open>//\<close>, a host name of letters, digits,
  hyphens and dots (no credentials, no port, no IP address, no punycode label), and a
  path, query and fragment made of characters that the parser copies as they are (nothing
  to percent-encode, no dot segment, no backslash). On these the parser lower-cases scheme
  and host, gives an empty path the single empty segment, and changes nothing else.
  A printable string with no scheme is rejected by the platform too (there is no base
  URL). Any other string outside this class (another scheme, a port, credentials, an IP
  address or an internationalised host, a character the parser encodes or strips, a dot
  segment) is outside the model: \<open>URL_new\<close> answers \<open>None\<close> there although the platform
  may parse the string, so nothing is concluded from it for such strings; \<open>in_model\<close>
  below marks the strings for which the model speaks.
\<close>

definition scheme_char :: "char \<Rightarrow> bool" where
  "scheme_char c = (is_upper c \<or> is_lower c \<or> is_digit c \<or> c \<in> set ''+-.'')"

definition printable :: "char \<Rightarrow> bool" where
  "printable c = (33 \<le> (of_char c :: nat) \<and> (of_char c :: nat) \<le> 126)"

definition host_char :: "char \<Rightarrow> bool" where
  "host_char c = (is_lower c \<or> is_digit c \<or> c \<in> set ''-.'')"

definition path_char :: "char \<Rightarrow> bool" where
  "path_char c = (printable c \<and> c \<notin> set [CHR 0x22, CHR ''#'', CHR ''<'', CHR ''>'', CHR ''?'',
      CHR 0x60, CHR ''{'', CHR ''}'', CHR ''^'', CHR ''/'', CHR 0x5C])"

definition query_char :: "char \<Rightarrow> bool" where
  "query_char c = (printable c \<and> c \<noteq> CHR ''#'')"

definition fragment_char :: "char \<Rightarrow> bool" where
  "fragment_char c = (printable c \<and> c \<notin> set [CHR 0x22, CHR ''<'', CHR ''>'', CHR 0x60])"

definition dot_segment :: "string \<Rightarrow> bool" where
  "dot_segment seg = (toLowerCase seg \<in> set [''.'', ''..'', ''%2e'', ''.%2e'', ''%2e.'', ''%2e%2e''])"

text \<open>The last label of the host (a final dot apart) must not start like a number.\<close>

definition host_ok :: "string \<Rightarrow> bool" where
  "host_ok h =
     (h \<noteq> [] \<and> list_all host_char h \<and> \<not> sublist ''xn--'' h
      \<and> (case rev (split_on CHR ''.'' h) of
            [] \<Rightarrow> False
          | l # ls \<Rightarrow>
              (let lab = (if l = [] then (case ls of [] \<Rightarrow> [] | l' # _ \<Rightarrow> l') else l)
               in lab \<noteq> [] \<and> \<not> is_digit (hd lab))))"

definition path_ok :: "string list \<Rightarrow> bool" where
  "path_ok segs = (segs \<noteq> [] \<and> list_all (\<lambda>seg. list_all path_char seg \<and> \<not> dot_segment seg) segs)"

definition url_ok :: "url \<Rightarrow> bool" where
  "url_ok u =
     (url_scheme u \<in> set [''http'', ''https''] \<and> host_ok (url_host u) \<and> path_ok (url_path u)
      \<and> (case url_query u of None \<Rightarrow> True | Some q \<Rightarrow> list_all query_char q)
      \<and> (case url_fragment u of None \<Rightarrow> True | Some f \<Rightarrow> list_all fragment_char f))"

text \<open>\<open>cut_at P s\<close>: the part of \<open>s\<close> before the first character in \<open>P\<close>, and the rest.\<close>

definition cut_at :: "(char \<Rightarrow> bool) \<Rightarrow> string \<Rightarrow> string \<times> string" where
  "cut_at P s = (takeWhile (\<lambda>c. \<not> P c) s, dropWhile (\<lambda>c. \<not> P c) s)"

definition parse_path :: "string \<Rightarrow> string list" where
  "parse_path p = (if p = [] then [[]] else split_on CHR ''/'' (tl p))"

definition URL_new :: "string \<Rightarrow> url option" where
  "URL_new input =
     (let (sch, r0) = cut_at (\<lambda>c. \<not> scheme_char c) input in
      if sch = [] \<or> \<not> (is_upper (hd sch) \<or> is_lower (hd sch)) \<or> \<not> prefix '':'' r0 then None
      else if \<not> prefix ''://'' r0 then None
      else
        let (auth, r1) = cut_at (\<lambda>c. c \<in> set ''/?#'') (drop 3 r0);
            (p, r2) = cut_at (\<lambda>c. c \<in> set ''?#'') r1;
            (q, r3) = (if prefix ''?'' r2
                       then (let (q', r') = cut_at (\<lambda>c. c = CHR ''#'') (tl r2) in (Some q', r'))
                       else (None, r2));
            f = (if prefix ''#'' r3 then Some (tl r3) else None);
            u = \<lparr>url_scheme = toLowerCase sch, url_host = toLowerCase auth,
                 url_path = parse_path p, url_query = q, url_fragment = f\<rparr>
        in if url_ok u then Some u else None)"

text \<open>
  The strings on which the model stands for the platform: printable ASCII throughout, and
  either without a scheme (the platform rejects these, having no base URL) or parsed by
  \<open>URL_new\<close>. On any other string \<open>URL_new\<close> says nothing about the platform, and the
  properties of \<open>normalizeUrl\<close> below are stated for the strings of the model only.
\<close>

definition has_scheme :: "string \<Rightarrow> bool" where
  "has_scheme input =
     (let (sch, r0) = cut_at (\<lambda>c. \<not> scheme_char c) input
      in sch \<noteq> [] \<and> (is_upper (hd sch) \<or> is_lower (hd sch)) \<and> prefix '':'' r0)"



section \<open>Normalizer (src/utils/helpers.js)\<close>

definition normalizeUrl :: "string \<Rightarrow> string" where
  "normalizeUrl url =
     (if url = [] then []
      else (case URL_new url of
              None \<Rightarrow> url
            | Some urlObj \<Rightarrow>
                (let cleanUrl = URL_toString (URL_clear_search urlObj)
                 in if endsWith cleanUrl ''/'' then butlast cleanUrl else cleanUrl)))"

text \<open>
  \<open>pathSegments\<close> is \<^verbatim>\<open>urlObj.pathname.split("/").filter(Boolean)\<close>; indexing an array out
  of range gives \<^verbatim>\<open>undefined\<close>, which is falsy like the empty string.
\<close>

definition pick_segment :: "string list \<Rightarrow> string option" where
  "pick_segment pathSegments =
     (if pathSegments = [] then None
      else (let slug = last pathSegments
            in if slug \<noteq> [] \<and> all_digits slug \<and> length pathSegments > 1
               then Some (pathSegments ! (length pathSegments - 2))
               else Some slug))"

definition extractSlugFromUrl :: "string \<Rightarrow> string" where
  "extractSlugFromUrl url =
     (if url = [] then []
      else (case URL_new url of
              None \<Rightarrow> []
            | Some urlObj \<Rightarrow>
                (let pathSegments = filter (\<lambda>s. s \<noteq> []) (split_on CHR ''/'' (URL_pathname urlObj))
                 in case pick_segment pathSegments of
                      None \<Rightarrow> []
                    | Some slug \<Rightarrow>
                        if slug = [] then []
                        else toLowerCase (underscores_to_hyphens (strip_html_ext slug)))))"


section \<open>Documents (src/models)\<close>

text \<open>
  The documents keep the fields that the pipeline reads or writes. Every path that
  enqueues sets \<^verbatim>\<open>text\<close>, and the related stories of a queue document passed the
  schema's validation when it was inserted, so each has a title.

  A JavaScript value that may be \<^verbatim>\<open>undefined\<close> is an \<open>option\<close>. \<open>truthy\<close> is the
  test \<^verbatim>\<open>if (s)\<close> on such a string, \<open>str_of\<close> the string a helper sees after its own
  \<^verbatim>\<open>if (!url) return ""\<close> guard (the undefined and the empty string fare alike there),
  and \<open>or_else\<close> is \<^verbatim>\<open>s || d\<close>.
\<close>

definition truthy :: "string option \<Rightarrow> bool" where
  "truthy s = (case s of None \<Rightarrow> False | Some x \<Rightarrow> x \<noteq> [])"

definition str_of :: "string option \<Rightarrow> string" where
  "str_of s = (case s of None \<Rightarrow> [] | Some x \<Rightarrow> x)"

definition or_else :: "string option \<Rightarrow> string \<Rightarrow> string" where
  "or_else s d = (if truthy s then str_of s else d)"

record related_story =
  rs_title :: string
  rs_summary :: "string option"
  rs_imageUrl :: "string option"
  rs_url :: "string option"

record video_variant =
  v_content_type :: string
  v_bitrate :: int
  v_url :: string

text \<open>\<open>m_variants\<close> is \<^verbatim>\<open>video_info?.variants || []\<close>.\<close>

record media_item =
  m_type :: string
  m_media_url_https :: "string option"
  m_variants :: "video_variant list"

text \<open>
  A queue document. \<open>q_oid\<close> is Mongo's \<^verbatim>\<open>_id\<close>; \<open>q_extended_media\<close> is
  \<^verbatim>\<open>extendedEntities?.media\<close>.
\<close>

record queue_item =
  q_oid :: nat
  q_id :: string
  q_text :: string
  q_url :: "string option"
  q_imageUrl :: "string option"
  q_media :: "media_item list"
  q_extended_media :: "media_item list option"
  q_relatedStories :: "related_story list"
  q_source :: "string option"
  q_user_name :: "string option"
  q_queuedAt :: int

record post =
  p_postId :: int
  p_title :: "string option"
  p_summary :: "string option"
  p_text :: "string option"
  p_url :: "string option"
  p_imageSearchSlug :: string
  p_source :: string
  p_sourceName :: string
  p_sourceType :: string
  p_imageUrl :: "string option"
  p_videoUrl :: "string option"
  p_relatedStories :: "related_story list"
  p_categories :: "string list"
  p_tags :: "nat list"
  p_publishedAt :: int
  p_isPublished :: bool
  p_type :: string
  p_lang :: string

text \<open>The content store: the queue and the posts, each in insertion order.\<close>

record store =
  queue :: "queue_item list"
  posts :: "post list"

section \<open>The store's operations (Mongoose)\<close>

datatype unique_index = PostId_1 | Url_1 | QueueId_1

text \<open>
  \<open>ValidationError\<close> is a post's missing field; \<open>QueueValidationError\<close> carries the
  positions of the related stories of a queue document that have no title.
\<close>

datatype error =
    ValidationError string
  | DuplicateKey unique_index string
  | ReferenceError string
  | QueueValidationError "nat list"

text \<open>A number in decimal, and \<^verbatim>\<open>parts.join(sep)\<close>.\<close>

fun decimal :: "nat \<Rightarrow> string" where
  "decimal n =
     (if n < 10 then [''0123456789'' ! n]
      else decimal (n div 10) @ [''0123456789'' ! (n mod 10)])"

fun join_with :: "string \<Rightarrow> string list \<Rightarrow> string" where
  "join_with sep [] = []"
| "join_with sep [x] = x"
| "join_with sep (x # y # ys) = x @ sep @ join_with sep (y # ys)"

text \<open>
  \<^verbatim>\<open>e.message\<close>, in the wording of Mongoose's validation error, of the server's
  duplicate-key error and of the engine's reference error.
\<close>

fun message :: "error \<Rightarrow> string" where
  "message (ValidationError field) =
     ''Post validation failed: '' @ field @ '': Path `'' @ field @ ''` is required.''"
| "message (DuplicateKey PostId_1 key) =
     ''E11000 duplicate key error collection: posts index: postId_1 dup key: { postId: '' @ key @ '' }''"
| "message (DuplicateKey Url_1 key) =
     ''E11000 duplicate key error collection: posts index: url_1 dup key: { url: \"'' @ key @ ''\" }''"
| "message (DuplicateKey QueueId_1 key) =
     ''E11000 duplicate key error collection: queues index: id_1 dup key: { id: \"'' @ key @ ''\" }''"
| "message (ReferenceError name) = name @ '' is not defined''"
| "message (QueueValidationError positions) =
     ''Queue validation failed: ''
       @ join_with '', ''
           (map (\<lambda>i. ''relatedStories.'' @ decimal i @ ''.title: Path `title` is required.'')
              positions)"

text \<open>
  \<^verbatim>\<open>newPost.save()\<close>. The schema requires a non-empty \<^verbatim>\<open>title\<close>; \<^verbatim>\<open>postId\<close> has a unique
  index and \<^verbatim>\<open>url\<close> a unique sparse one (a post with no \<^verbatim>\<open>url\<close> field is not indexed, a
  post whose \<^verbatim>\<open>url\<close> is the empty string is). Validation runs before the insert.
\<close>

definition Post_save :: "post \<Rightarrow> post list \<Rightarrow> error + post list" where
  "Post_save p ps =
     (if \<not> truthy (p_title p) then Inl (ValidationError ''title'')
      else if list_ex (\<lambda>p'. p_postId p' = p_postId p) ps
      then Inl (DuplicateKey PostId_1 [])
      else if p_url p \<noteq> None \<and> list_ex (\<lambda>p'. p_url p' = p_url p) ps
      then Inl (DuplicateKey Url_1 (str_of (p_url p)))
      else Inr (ps @ [p]))"

text \<open>\<^verbatim>\<open>Queue.deleteOne({ _id: oid })\<close>: the first document with that \<^verbatim>\<open>_id\<close> goes.\<close>

fun deleteOne :: "nat \<Rightarrow> queue_item list \<Rightarrow> queue_item list" where
  "deleteOne oid [] = []"
| "deleteOne oid (q # qs) = (if q_oid q = oid then qs else q # deleteOne oid qs)"

text \<open>
  \<^verbatim>\<open>Post.findOne({ url: { $regex: new RegExp(escaped, "i") } })\<close>: every regular-expression
  character of \<open>cleanUrl\<close> is escaped, so the pattern matches \<open>cleanUrl\<close> literally,
  anywhere in a post's URL, with letters compared regardless of case. A post with no
  \<^verbatim>\<open>url\<close> never matches.
\<close>

definition url_matches :: "string \<Rightarrow> post \<Rightarrow> bool" where
  "url_matches cleanUrl p =
     (case p_url p of
        None \<Rightarrow> False
      | Some u \<Rightarrow> str_includes (toLowerCase u) (toLowerCase cleanUrl))"

definition findDuplicate :: "string \<Rightarrow> post list \<Rightarrow> post option" where
  "findDuplicate cleanUrl ps = find (url_matches cleanUrl) ps"

text \<open>\<^verbatim>\<open>Queue.find().sort({ queuedAt: 1 }).limit(3)\<close>\<close>

definition oldest_three :: "queue_item list \<Rightarrow> queue_item list" where
  "oldest_three qs = take 3 (sort_key q_queuedAt qs)"

section \<open>Publish worker\<close>

text \<open>
  The repository holds the worker twice over: inline in the monolithic servers
  (server.js, index.js) and as \<^verbatim>\<open>processQueueItem\<close> of the worker service. They differ in
  the title fallback, the fallback slug and the per-item \<^verbatim>\<open>catch\<close>.
\<close>

datatype variant = Monolith | Service

text \<open>What the rewrite engine returned, parsed: each field may be missing.\<close>

record gemini_data =
  g_title :: "string option"
  g_summary :: "string option"
  g_category :: "string option"
  g_slug_en :: "string option"

text \<open>
  What the worker draws from outside while it handles one item: the rewrite engine's
  answer (\<open>None\<close> is \<^verbatim>\<open>null\<close>), the random post id, the clock, and the queue documents
  that other activities insert meanwhile.
\<close>

record env =
  rewrite :: "queue_item \<Rightarrow> gemini_data option"
  generatePostId :: "queue_item \<Rightarrow> int"
  clock :: "queue_item \<Rightarrow> int"
  arrivals :: "queue_item \<Rightarrow> queue_item list"

text \<open>
  JavaScript's white space (\<^verbatim>\<open>\s\<close>, \<^verbatim>\<open>trim()\<close>) among the characters a \<open>char\<close> can
  hold: the six ASCII ones and the no-break space U+00A0. The remaining ones (U+1680,
  U+2000 to U+200A, U+2028, U+2029, U+202F, U+205F, U+3000, U+FEFF) lie beyond \<open>char\<close>.
\<close>

definition is_space :: "char \<Rightarrow> bool" where
  "is_space c =
     (c \<in> set [CHR '' '', CHR 0x09, CHR 0x0A, CHR 0x0B, CHR 0x0C, CHR 0x0D, CHR 0xA0])"

text \<open>\<^verbatim>\<open>!finalTitle || finalTitle.trim() === ""\<close>\<close>

definition blank :: "string option \<Rightarrow> bool" where
  "blank s = (\<not> truthy s \<or> list_all is_space (str_of s))"

definition fallback_slug :: "variant \<Rightarrow> string" where
  "fallback_slug v = (case v of Monolith \<Rightarrow> ''latest-telugu-news'' | Service \<Rightarrow> ''latest-news'')"

definition final_search_slug :: "variant \<Rightarrow> gemini_data \<Rightarrow> queue_item \<Rightarrow> string" where
  "final_search_slug v geminiData item =
     (let s1 = str_of (g_slug_en geminiData);
          s2 = (if s1 = [] \<or> length s1 < 3 then extractSlugFromUrl (str_of (q_url item)) else s1)
      in if s2 = [] then fallback_slug v else s2)"

definition first_media :: "queue_item \<Rightarrow> media_item option" where
  "first_media item =
     (case q_extended_media item of
        None \<Rightarrow> None
      | Some ms \<Rightarrow> (case ms of [] \<Rightarrow> None | m # _ \<Rightarrow> Some m))"

definition final_image :: "queue_item \<Rightarrow> string option" where
  "final_image item =
     (if truthy (q_imageUrl item) then q_imageUrl item
      else (case first_media item of
              None \<Rightarrow> q_imageUrl item
            | Some m \<Rightarrow> m_media_url_https m))"

text \<open>The best mp4 variant of a leading video, if there is one.\<close>

definition best_video :: "queue_item \<Rightarrow> video_variant option" where
  "best_video item =
     (let mediaList = (case q_extended_media item of Some ms \<Rightarrow> ms | None \<Rightarrow> q_media item)
      in case mediaList of
           [] \<Rightarrow> None
         | m # _ \<Rightarrow>
             if m_type m = ''video''
             then (case sort_key (\<lambda>x. - v_bitrate x)
                          (filter (\<lambda>x. v_content_type x = ''video/mp4'') (m_variants m)) of
                     [] \<Rightarrow> None
                   | b # _ \<Rightarrow> Some b)
             else None)"

definition final_title :: "variant \<Rightarrow> gemini_data \<Rightarrow> queue_item \<Rightarrow> string option" where
  "final_title v geminiData item =
     (case v of
        Monolith \<Rightarrow> g_title geminiData
      | Service \<Rightarrow>
          if blank (g_title geminiData)
          then Some (let s = extractSlugFromUrl (str_of (q_url item))
                     in if s = [] then ''News Update'' else s)
          else g_title geminiData)"

definition final_summary :: "variant \<Rightarrow> gemini_data \<Rightarrow> queue_item \<Rightarrow> string option" where
  "final_summary v geminiData item =
     (case v of
        Monolith \<Rightarrow> g_summary geminiData
      | Service \<Rightarrow>
          if truthy (g_summary geminiData) then g_summary geminiData
          else final_title v geminiData item)"

text \<open>
  The object the worker passes to \<^verbatim>\<open>new Post\<close>. What the schema adds by default to a
  field left undefined (the placeholder image of server.js:175 for a missing
  \<^verbatim>\<open>imageUrl\<close>) is not part of it.
\<close>

definition build_post :: "variant \<Rightarrow> env \<Rightarrow> queue_item \<Rightarrow> gemini_data \<Rightarrow> post" where
  "build_post v e item geminiData =
     \<lparr>p_postId = generatePostId e item,
      p_title = final_title v geminiData item,
      p_summary = final_summary v geminiData item,
      p_text = final_summary v geminiData item,
      p_url = q_url item,
      p_imageSearchSlug = final_search_slug v geminiData item,
      p_source = or_else (q_source item) ''Manual'',
      p_sourceName = or_else (q_user_name item) ''Manual'',
      p_sourceType = (if q_source item = Some ''Manual'' then ''manual'' else ''rss''),
      p_imageUrl = final_image item,
      p_videoUrl = map_option v_url (best_video item),
      p_relatedStories = q_relatedStories item,
      p_categories = [or_else (g_category geminiData) ''General''],
      p_tags = [],
      p_publishedAt = clock e item,
      p_isPublished = True,
      p_type = (if best_video item = None then ''normal_post'' else ''normal_video''),
      p_lang = ''te''\<rparr>"

text \<open>
  The per-item \<^verbatim>\<open>catch\<close>: the monolith only logs the error; the service also deletes the
  item when the message says that validation failed.
\<close>

definition catch_deletes :: "variant \<Rightarrow> error \<Rightarrow> bool" where
  "catch_deletes v err =
     (case v of
        Monolith \<Rightarrow> False
      | Service \<Rightarrow> str_includes (message err) ''validation failed'')"

datatype outcome = Duplicate | Published post | RewriteFailed | Errored error

definition remove_item :: "queue_item \<Rightarrow> store \<Rightarrow> store" where
  "remove_item item st = st\<lparr>queue := deleteOne (q_oid item) (queue st)\<rparr>"

text \<open>The body of the \<^verbatim>\<open>for\<close> loop, one item: what happened, and the store afterwards.\<close>

definition process_item :: "variant \<Rightarrow> env \<Rightarrow> queue_item \<Rightarrow> store \<Rightarrow> outcome \<times> store" where
  "process_item v e item st =
     (if truthy (q_url item)
         \<and> findDuplicate (normalizeUrl (str_of (q_url item))) (posts st) \<noteq> None
      then (Duplicate, remove_item item st)
      else (case rewrite e item of
              None \<Rightarrow> (RewriteFailed, remove_item item st)
            | Some geminiData \<Rightarrow>
                (let newPost = build_post v e item geminiData
                 in case Post_save newPost (posts st) of
                      Inr ps \<Rightarrow> (Published newPost, remove_item item (st\<lparr>posts := ps\<rparr>))
                    | Inl err \<Rightarrow>
                        (Errored err,
                         if catch_deletes v err then remove_item item st else st))))"

text \<open>
  The loop over the batch. After each item the documents that arrived while it was
  handled (and during the pause that follows) are in the queue.
\<close>

fun process_batch ::
  "variant \<Rightarrow> env \<Rightarrow> queue_item list \<Rightarrow> store \<Rightarrow> (queue_item \<times> outcome) list \<times> store" where
  "process_batch v e [] st = ([], st)"
| "process_batch v e (item # rest) st =
     (let (out, st1) = process_item v e item st;
          st2 = st1\<lparr>queue := queue st1 @ arrivals e item\<rparr>;
          (recd, st3) = process_batch v e rest st2
      in ((item, out) # recd, st3))"

text \<open>One run of the scheduled worker.\<close>

definition worker_cycle :: "variant \<Rightarrow> env \<Rightarrow> store \<Rightarrow> (queue_item \<times> outcome) list \<times> store" where
  "worker_cycle v e st = process_batch v e (oldest_three (queue st)) st"

section \<open>Title similarity (the string-similarity package)\<close>

text \<open>
  \<^verbatim>\<open>compareTwoStrings\<close> of the package (version 4): the Dice coefficient of the two strings' character
  pairs, white space removed, each pair of the first string matched at most once. The
  result is a quotient of small integers; it is kept exact here (the double the package
  returns compares with 0.65 the same way for any title of realistic length).
\<close>

definition strip_spaces :: "string \<Rightarrow> string" where
  "strip_spaces s = filter (\<lambda>c. \<not> is_space c) s"

fun bigrams :: "string \<Rightarrow> (char \<times> char) list" where
  "bigrams (a # b # cs) = (a, b) # bigrams (b # cs)"
| "bigrams _ = []"

fun intersectionSize :: "(char \<times> char) list \<Rightarrow> (char \<times> char) list \<Rightarrow> nat" where
  "intersectionSize firstBigrams [] = 0"
| "intersectionSize firstBigrams (b # bs) =
     (if b \<in> set firstBigrams then Suc (intersectionSize (remove1 b firstBigrams) bs)
      else intersectionSize firstBigrams bs)"

definition compareTwoStrings :: "string \<Rightarrow> string \<Rightarrow> rat" where
  "compareTwoStrings first second =
     (let f = strip_spaces first; s = strip_spaces second
      in if f = s then 1
         else if length f < 2 \<or> length s < 2 then 0
         else (2 * of_nat (intersectionSize (bigrams f) (bigrams s)))
                / of_nat (length f + length s - 2))"

text \<open>
  \<^verbatim>\<open>findBestMatch(mainString, targetStrings).bestMatch.rating\<close>: the first greatest rating.
  The package throws on an empty target list; the fetcher calls it on a non-empty list only.
\<close>

definition bestMatch_rating :: "string \<Rightarrow> string list \<Rightarrow> rat" where
  "bestMatch_rating mainString targetStrings =
     (case map (compareTwoStrings mainString) targetStrings of
        [] \<Rightarrow> 0
      | r # rs \<Rightarrow> foldl (\<lambda>best x. if x > best then x else best) r rs)"

section \<open>Feed fetcher (src/services/rssService.js)\<close>

text \<open>
  A parsed feed entry, with the fields the fetcher reads. \<open>e_first_img\<close> is the
  \<^verbatim>\<open>src\<close> of the first image of the entry's HTML content, as the HTML parser finds it.
  Entries carry a title, as feeds do.
\<close>

record rss_entry =
  e_title :: string
  e_link :: "string option"
  e_contentSnippet :: "string option"
  e_enclosure_url :: "string option"
  e_mediaContent_url :: "string option"
  e_mediaThumbnail_url :: "string option"
  e_first_img :: "string option"

record feed_source =
  f_name :: string
  f_url :: string

definition extractRSSImage :: "rss_entry \<Rightarrow> string option" where
  "extractRSSImage item =
     (if truthy (e_enclosure_url item) then e_enclosure_url item
      else if truthy (e_mediaContent_url item) then e_mediaContent_url item
      else if truthy (e_mediaThumbnail_url item) then e_mediaThumbnail_url item
      else if truthy (e_first_img item) then e_first_img item
      else None)"

text \<open>
  What a fetch cycle draws from outside: the parsed feed behind a URL (\<open>None\<close> when
  fetching or parsing throws), the clock, and the fresh ObjectIds, numbered in the order
  in which the cycle draws them.
\<close>

record rss_env =
  parseURL :: "string \<Rightarrow> rss_entry list option"
  rss_now :: int
  new_oid :: "nat \<Rightarrow> nat"
  new_id :: "nat \<Rightarrow> string"

text \<open>The process: the module-level lock flag and the store.\<close>

record process =
  isRSSFetching :: bool
  db :: store

text \<open>\<^verbatim>\<open>s.replace(pat, "")\<close> for a string pattern: the first occurrence is cut.\<close>

fun cut_first :: "string \<Rightarrow> string \<Rightarrow> string" where
  "cut_first pat [] = []"
| "cut_first pat (c # cs) =
     (if prefix pat (c # cs) then drop (length pat) (c # cs) else c # cut_first pat cs)"

text \<open>\<^verbatim>\<open>q.text.split("\n")[0].replace("Title: ", "")\<close>\<close>

definition queue_title :: "queue_item \<Rightarrow> string" where
  "queue_title q =
     cut_first ''Title: '' (case split_on CHR 0x0A (q_text q) of [] \<Rightarrow> [] | l # _ \<Rightarrow> l)"

text \<open>The loop's variables: the comparison sets, the queue, and the counter.\<close>

record rss_acc =
  existingTitles :: "string list"
  existingUrls :: "string list"
  acc_queue :: "queue_item list"
  totalQueued :: nat

definition recentPosts :: "rss_env \<Rightarrow> post list \<Rightarrow> post list" where
  "recentPosts e ps = filter (\<lambda>p. p_publishedAt p \<ge> rss_now e - 72 * 60 * 60 * 1000) ps"

definition rss_start :: "rss_env \<Rightarrow> store \<Rightarrow> rss_acc" where
  "rss_start e st =
     \<lparr>existingTitles =
        filter (\<lambda>t. t \<noteq> [])
          (map (\<lambda>p. str_of (p_title p)) (recentPosts e (posts st)) @ map queue_title (queue st)),
      existingUrls =
        map (\<lambda>p. normalizeUrl (str_of (p_url p))) (recentPosts e (posts st))
          @ map (\<lambda>q. normalizeUrl (str_of (q_url q))) (queue st),
      acc_queue = queue st,
      totalQueued = 0\<rparr>"

definition is_near_duplicate :: "rss_acc \<Rightarrow> rss_entry \<Rightarrow> bool" where
  "is_near_duplicate acc item =
     (existingTitles acc \<noteq> [] \<and> bestMatch_rating (e_title item) (existingTitles acc) > 65 / 100)"

definition new_queue_item :: "rss_env \<Rightarrow> feed_source \<Rightarrow> nat \<Rightarrow> rss_entry \<Rightarrow> queue_item" where
  "new_queue_item e feedSource k item =
     (let extractedImage = extractRSSImage item;
          mediaObj = (case extractedImage of
                        None \<Rightarrow> []
                      | Some img \<Rightarrow> [\<lparr>m_type = ''photo'', m_media_url_https = Some img,
                                       m_variants = []\<rparr>])
      in \<lparr>q_oid = new_oid e k, q_id = new_id e k,
          q_text = ''Title: '' @ e_title item @ [CHR 0x0A] @ ''Summary: ''
                     @ or_else (e_contentSnippet item) [],
          q_url = e_link item, q_imageUrl = extractedImage, q_media = mediaObj,
          q_extended_media = Some mediaObj, q_relatedStories = [],
          q_source = Some (f_name feedSource), q_user_name = Some (f_name feedSource),
          q_queuedAt = rss_now e\<rparr>)"

text \<open>The body of the inner loop, one entry.\<close>

definition rss_item :: "rss_env \<Rightarrow> feed_source \<Rightarrow> rss_entry \<Rightarrow> rss_acc \<Rightarrow> rss_acc" where
  "rss_item e feedSource item acc =
     (let cleanLink = normalizeUrl (str_of (e_link item))
      in if cleanLink \<in> set (existingUrls acc) then acc
         else if is_near_duplicate acc item then acc
         else \<lparr>existingTitles = existingTitles acc @ [e_title item],
               existingUrls = existingUrls acc @ [cleanLink],
               acc_queue = acc_queue acc @ [new_queue_item e feedSource (totalQueued acc) item],
               totalQueued = totalQueued acc + 1\<rparr>)"

text \<open>The body of the outer loop, one feed: a feed that cannot be fetched is skipped.\<close>

definition rss_feed :: "rss_env \<Rightarrow> feed_source \<Rightarrow> rss_acc \<Rightarrow> rss_acc" where
  "rss_feed e feedSource acc =
     (case parseURL e (f_url feedSource) of
        None \<Rightarrow> acc
      | Some items \<Rightarrow> fold (rss_item e feedSource) (take 5 items) acc)"

text \<open>
  The guard at the top of \<^verbatim>\<open>fetchAndQueueRSS\<close> (\<open>None\<close>: the flag is set, return 0;
  otherwise the flag is set before the first \<^verbatim>\<open>await\<close>) and its \<^verbatim>\<open>finally\<close> block.
\<close>

definition rss_guard :: "process \<Rightarrow> process option" where
  "rss_guard pr = (if isRSSFetching pr then None else Some (pr\<lparr>isRSSFetching := True\<rparr>))"

definition rss_finally :: "process \<Rightarrow> process" where
  "rss_finally pr = pr\<lparr>isRSSFetching := False\<rparr>"

definition fetchAndQueueRSS ::
  "rss_env \<Rightarrow> feed_source list \<Rightarrow> process \<Rightarrow> nat \<times> process" where
  "fetchAndQueueRSS e RSS_FEEDS pr =
     (case rss_guard pr of
        None \<Rightarrow> (0, pr)
      | Some pr1 \<Rightarrow>
          (let acc = fold (rss_feed e) RSS_FEEDS (rss_start e (db pr1));
               pr2 = pr1\<lparr>db := (db pr1)\<lparr>queue := acc_queue acc\<rparr>\<rparr>
           in (totalQueued acc, rss_finally pr2)))"

text \<open>The entries of a cycle in the order in which it handles them, each with its feed.\<close>

definition fetch_order :: "rss_env \<Rightarrow> feed_source list \<Rightarrow> (feed_source \<times> rss_entry) list" where
  "fetch_order e RSS_FEEDS =
     concat (map (\<lambda>f. case parseURL e (f_url f) of
                         None \<Rightarrow> []
                       | Some items \<Rightarrow> map (Pair f) (take 5 items)) RSS_FEEDS)"

text \<open>
  Fetch cycles and the lock, as the event loop interleaves them. A state is the process
  with the number of cycles that have passed the guard and not yet reached their
  \<^verbatim>\<open>finally\<close>. An invocation either is turned away by the guard or passes it; between
  its \<^verbatim>\<open>await\<close>s the store may change, by its own writes or by other activities; a
  cycle in flight ends with its \<^verbatim>\<open>finally\<close>.
\<close>

inductive lock_step :: "process \<times> nat \<Rightarrow> process \<times> nat \<Rightarrow> bool" where
  skip: "rss_guard pr = None \<Longrightarrow> lock_step (pr, n) (pr, n)"
| enter: "rss_guard pr = Some pr1 \<Longrightarrow> lock_step (pr, n) (pr1, Suc n)"
| work: "lock_step (pr, n) (pr\<lparr>db := d\<rparr>, n)"
| leave: "n > 0 \<Longrightarrow> lock_step (pr, n) (rss_finally pr, n - 1)"

inductive lock_reachable :: "process \<times> nat \<Rightarrow> bool" where
  start: "\<not> isRSSFetching pr \<Longrightarrow> lock_reachable (pr, 0)"
| step: "lock_reachable s \<Longrightarrow> lock_step s s' \<Longrightarrow> lock_reachable s'"

section \<open>Manual ingestion: POST /api/add-content-to-queue\<close>

text \<open>
  The repository holds the handler three times: in server.js at line 1060, in index.js at
  line 484 and in server.js at line 4952.
\<close>

datatype handler_copy = Server_1060 | Index_484 | Server_4952

record request_body =
  b_content :: "string option"
  b_url :: "string option"
  b_title :: "string option"
  b_imageUrl :: "string option"
  b_source :: "string option"
  b_relatedStories :: "related_story list option"

text \<open>\<open>Success_json id\<close> is \<^verbatim>\<open>res.json({ success: true, queueId: id })\<close>.\<close>

datatype response = Success_json string | Error_json nat string

record handler_env =
  h_now :: int
  h_oid :: nat
  h_id :: string

text \<open>
  \<^verbatim>\<open>Queue.create(queueItem)\<close>. The schema requires a title of every related story
  (validation runs first and reports every story without one), and its \<^verbatim>\<open>id\<close> is
  required and unique.
\<close>

definition untitled :: "related_story list \<Rightarrow> nat list" where
  "untitled rs = filter (\<lambda>i. rs_title (rs ! i) = []) [0 ..< length rs]"

definition Queue_create :: "queue_item \<Rightarrow> queue_item list \<Rightarrow> error + queue_item list" where
  "Queue_create item qs =
     (if untitled (q_relatedStories item) \<noteq> []
      then Inl (QueueValidationError (untitled (q_relatedStories item)))
      else if list_ex (\<lambda>q. q_id q = q_id item) qs
      then Inl (DuplicateKey QueueId_1 (q_id item))
      else Inr (qs @ [item]))"

text \<open>
  The \<^verbatim>\<open>relatedStories\<close> property of the object literal. The copy at server.js:1060
  reads the identifier \<^verbatim>\<open>relatedStories\<close>, which its destructuring of the body does not
  bind and nothing else in that module declares: evaluating it throws. The copy in
  index.js has no such property (the schema's default is the empty list); the copy at
  server.js:4952 binds the identifier from the body and writes
  \<^verbatim>\<open>relatedStories || []\<close>.
\<close>

definition related_of :: "handler_copy \<Rightarrow> request_body \<Rightarrow> error + related_story list" where
  "related_of h body =
     (case h of
        Server_1060 \<Rightarrow> Inl (ReferenceError ''relatedStories'')
      | Index_484 \<Rightarrow> Inr []
      | Server_4952 \<Rightarrow> Inr (case b_relatedStories body of None \<Rightarrow> [] | Some rs \<Rightarrow> rs))"

definition content_text :: "request_body \<Rightarrow> string" where
  "content_text body =
     (if truthy (b_title body)
      then ''Title: '' @ str_of (b_title body) @ [CHR 0x0A] @ ''Content: ''
             @ or_else (b_content body) []
      else or_else (b_content body) (''Article from '' @ str_of (b_url body)))"

definition build_queue_item ::
  "handler_copy \<Rightarrow> handler_env \<Rightarrow> request_body \<Rightarrow> error + queue_item" where
  "build_queue_item h e body =
     (case related_of h body of
        Inl err \<Rightarrow> Inl err
      | Inr related \<Rightarrow>
          Inr \<lparr>q_oid = h_oid e, q_id = h_id e,
               q_text = content_text body,
               q_url = Some (or_else (b_url body) []),
               q_imageUrl = (if truthy (b_imageUrl body) then b_imageUrl body else None),
               q_media = (if truthy (b_imageUrl body)
                          then [\<lparr>m_type = ''photo'', m_media_url_https = b_imageUrl body,
                                  m_variants = []\<rparr>]
                          else []),
               q_extended_media = (if truthy (b_imageUrl body)
                          then Some [\<lparr>m_type = [], m_media_url_https = b_imageUrl body,
                                       m_variants = []\<rparr>]
                          else None),
               q_relatedStories = related,
               q_source = Some (or_else (b_source body) ''Manual Paste''),
               q_user_name = Some (or_else (b_source body) ''Admin''),
               q_queuedAt = h_now e\<rparr>)"

text \<open>The handler: any exception of the \<^verbatim>\<open>try\<close> block becomes a 500 response.\<close>

definition add_content_to_queue ::
  "handler_copy \<Rightarrow> handler_env \<Rightarrow> request_body \<Rightarrow> store \<Rightarrow> response \<times> store" where
  "add_content_to_queue h e body st =
     (if \<not> truthy (b_content body) \<and> \<not> truthy (b_url body)
      then (Error_json 400 ''No content/url'', st)
      else (case build_queue_item h e body of
              Inl err \<Rightarrow> (Error_json 500 (message err), st)
            | Inr queueItem \<Rightarrow>
                (case Queue_create queueItem (queue st) of
                   Inl err \<Rightarrow> (Error_json 500 (message err), st)
                 | Inr qs \<Rightarrow> (Success_json (q_id queueItem), st\<lparr>queue := qs\<rparr>))))"

section \<open>Notions used to state the worker's properties\<close>

text \<open>
  \<open>deletes v out\<close>: the loop body reached \<^verbatim>\<open>Queue.deleteOne\<close> on the way to \<open>out\<close>.
  \<open>removed_oids\<close> collects the \<^verbatim>\<open>_id\<close>s deleted according to a cycle's record, \<open>published_posts\<close>
  the posts saved according to it. \<open>ids_unique\<close> is Mongo's guarantee that no two
  documents of the queue, those arriving during the cycle included, share an \<^verbatim>\<open>_id\<close>;
  \<open>batch_inv\<close> is its form for the rest of a batch.
\<close>

definition deletes :: "variant \<Rightarrow> outcome \<Rightarrow> bool" where
  "deletes v out = (case out of Errored err \<Rightarrow> catch_deletes v err | _ \<Rightarrow> True)"

definition batch_inv :: "env \<Rightarrow> queue_item list \<Rightarrow> store \<Rightarrow> bool" where
  "batch_inv e b st =
     (distinct (map q_oid (queue st @ concat (map (arrivals e) b)))
      \<and> set b \<subseteq> set (queue st) \<and> distinct b)"

definition removed_oids :: "variant \<Rightarrow> (queue_item \<times> outcome) list \<Rightarrow> nat set" where
  "removed_oids v recd = {q_oid item | item out. (item, out) \<in> set recd \<and> deletes v out}"

definition published_posts :: "(queue_item \<times> outcome) list \<Rightarrow> post list" where
  "published_posts recd =
     concat (map (\<lambda>(item, out). case out of Published p \<Rightarrow> [p] | _ \<Rightarrow> []) recd)"

definition ids_unique :: "env \<Rightarrow> store \<Rightarrow> bool" where
  "ids_unique e st =
     distinct (map q_oid (queue st @ concat (map (arrivals e) (oldest_three (queue st)))))"

section \<open>Sample data\<close>

definition demo_item :: "nat \<Rightarrow> string option \<Rightarrow> int \<Rightarrow> queue_item" where
  "demo_item oid url t =
     \<lparr>q_oid = oid, q_id = replicate oid CHR ''1'', q_text = ''Pasted text of a story'',
      q_url = url, q_imageUrl = None, q_media = [], q_extended_media = None,
      q_relatedStories = [], q_source = Some ''Manual Paste'', q_user_name = Some ''Admin'',
      q_queuedAt = t\<rparr>"

definition demo_gemini :: "string option \<Rightarrow> gemini_data" where
  "demo_gemini slug =
     \<lparr>g_title = Some ''Headline'', g_summary = Some ''Summary'', g_category = None,
      g_slug_en = slug\<rparr>"

definition demo_env :: "gemini_data option \<Rightarrow> (queue_item \<Rightarrow> queue_item list) \<Rightarrow> env" where
  "demo_env g arr =
     \<lparr>rewrite = (\<lambda>_. g), generatePostId = (\<lambda>item. 100000000 + int (q_oid item)),
      clock = (\<lambda>item. q_queuedAt item + 60), arrivals = arr\<rparr>"

definition demo_post :: "int \<Rightarrow> string option \<Rightarrow> post" where
  "demo_post pid url =
     \<lparr>p_postId = pid, p_title = Some ''Earlier headline'', p_summary = Some ''Earlier summary'',
      p_text = Some ''Earlier summary'', p_url = url, p_imageSearchSlug = ''earlier'',
      p_source = ''Manual Paste'', p_sourceName = ''Admin'', p_sourceType = ''rss'',
      p_imageUrl = None, p_videoUrl = None, p_relatedStories = [], p_categories = [''General''],
      p_tags = [], p_publishedAt = 0, p_isPublished = True, p_type = ''normal_post'',
      p_lang = ''te''\<rparr>"

definition demo_entry :: "string \<Rightarrow> string \<Rightarrow> rss_entry" where
  "demo_entry title link =
     \<lparr>e_title = title, e_link = Some link, e_contentSnippet = None, e_enclosure_url = None,
      e_mediaContent_url = None, e_mediaThumbnail_url = None, e_first_img = None\<rparr>"

definition demo_feeds :: "feed_source list" where
  "demo_feeds = [\<lparr>f_name = ''Feed A'', f_url = ''https://a.example/rss''\<rparr>,
                 \<lparr>f_name = ''Feed B'', f_url = ''https://b.example/rss''\<rparr>]"

definition demo_rss_env :: "string \<Rightarrow> string \<Rightarrow> rss_env" where
  "demo_rss_env t1 t2 =
     \<lparr>parseURL = (\<lambda>u. if u = ''https://a.example/rss''
                         then Some [demo_entry t1 ''https://a.example/story-one'']
                         else if u = ''https://b.example/rss''
                         then Some [demo_entry t2 ''https://b.example/story-two'']
                         else None),
      rss_now = 1000, new_oid = (\<lambda>k. 100 + k), new_id = (\<lambda>k. replicate (Suc k) CHR ''f'')\<rparr>"

definition demo_body :: "string option \<Rightarrow> string option \<Rightarrow> request_body" where
  "demo_body content url =
     \<lparr>b_content = content, b_url = url, b_title = None, b_imageUrl = None, b_source = None,
      b_relatedStories = None\<rparr>"

definition demo_handler_env :: handler_env where
  "demo_handler_env = \<lparr>h_now = 1000, h_oid = 7, h_id = ''65f0a1''\<rparr>"

section \<open>Facts about the URL model\<close>































lemma no_scheme_unparsed: "\<not> has_scheme u \<Longrightarrow> URL_new u = None"
  by (auto simp: has_scheme_def URL_new_def Let_def split: prod.splits)

section \<open>URL normalisation\<close>





section \<open>Slug extraction\<close>




section \<open>Facts about the publish worker\<close>

lemma deleteOne_filter:
  "distinct (map q_oid qs) \<Longrightarrow> deleteOne oid qs = filter (\<lambda>q. q_oid q \<noteq> oid) qs"
proof (induction qs)
  case Nil
  then show ?case by simp
next
  case (Cons q qs)
  have "q_oid q \<notin> set (map q_oid qs)" using Cons.prems by simp
  then have "\<forall>x\<in>set qs. q_oid x \<noteq> q_oid q" by (metis image_eqI set_map)
  then have "filter (\<lambda>x. q_oid x \<noteq> q_oid q) qs = qs" by (intro filter_True)
  with Cons show ?case by auto
qed

lemma distinct_map_append_fresh:
  assumes "distinct (map f (xs @ ys))" and "a \<in> set ys" and "x \<in> set xs"
  shows "f a \<noteq> f x"
proof -
  have "set (map f xs) \<inter> set (map f ys) = {}" using assms(1) by simp
  moreover have "f a \<in> set (map f ys)" "f x \<in> set (map f xs)" using assms(2,3) by simp_all
  ultimately show ?thesis by force
qed

lemma process_item_queue:
  "process_item v e item st = (out, st1) \<Longrightarrow>
   queue st1 = (if deletes v out then deleteOne (q_oid item) (queue st) else queue st)"
  by (auto simp: process_item_def remove_item_def deletes_def Let_def
           split: if_splits option.splits sum.splits)

lemma Post_save_appends: "Post_save p ps = Inr ps' \<Longrightarrow> ps' = ps @ [p]"
  by (auto simp: Post_save_def split: if_splits)

lemma process_item_posts:
  "process_item v e item st = (out, st1) \<Longrightarrow>
   posts st1 = (case out of Published p \<Rightarrow> posts st @ [p] | _ \<Rightarrow> posts st)"
  by (auto simp: process_item_def remove_item_def Let_def
           dest: Post_save_appends split: if_splits option.splits sum.splits)

lemma process_item_posts_mono:
  "process_item v e item st = (out, st1) \<Longrightarrow> set (posts st) \<subseteq> set (posts st1)"
  by (drule process_item_posts) (auto split: outcome.splits)

lemma removed_oids_Cons:
  "removed_oids v ((item, out) # recd) =
     (if deletes v out then {q_oid item} else {}) \<union> removed_oids v recd"
  by (auto simp: removed_oids_def)

lemma process_batch_queue:
  "process_batch v e b st = (recd, st') \<Longrightarrow> batch_inv e b st \<Longrightarrow>
   map fst recd = b \<and>
   queue st' = filter (\<lambda>q. q_oid q \<notin> removed_oids v recd) (queue st) @ concat (map (arrivals e) b)"
proof (induction b arbitrary: st recd st')
  case Nil
  then show ?case by (simp add: removed_oids_def)
next
  case (Cons item rest)
  obtain out st1 where p1: "process_item v e item st = (out, st1)" by (cases "process_item v e item st")
  define st2 where "st2 = st1\<lparr>queue := queue st1 @ arrivals e item\<rparr>"
  obtain rec3 st3 where p3: "process_batch v e rest st2 = (rec3, st3)"
    by (cases "process_batch v e rest st2")
  have res: "recd = (item, out) # rec3" "st' = st3"
    using Cons.prems(1) p1 p3 by (simp_all add: st2_def)
  have inv: "distinct (map q_oid (queue st @ arrivals e item @ concat (map (arrivals e) rest)))"
     "item \<in> set (queue st)" "set rest \<subseteq> set (queue st)" "item \<notin> set rest" "distinct rest"
    using Cons.prems(2) by (auto simp: batch_inv_def)
  have dq: "distinct (map q_oid (queue st))" using inv(1) by simp
  have q1: "queue st1 = (if deletes v out then filter (\<lambda>q. q_oid q \<noteq> q_oid item) (queue st) else queue st)"
    using process_item_queue [OF p1] deleteOne_filter [OF dq] by simp
  have oid_inj: "\<And>q. q \<in> set (queue st) \<Longrightarrow> q_oid q = q_oid item \<Longrightarrow> q = item"
    using dq inv(2) by (meson distinct_map inj_onD)
  have rest_in: "set rest \<subseteq> set (queue st1)"
    using inv(3,4) oid_inj unfolding q1 by auto
  have sub: "set (queue st1) \<subseteq> set (queue st)" unfolding q1 by auto
  have d2: "distinct (map q_oid (queue st1 @ arrivals e item @ concat (map (arrivals e) rest)))"
  proof (cases "deletes v out")
    case False
    then show ?thesis using inv(1) q1 by simp
  next
    case True
    let ?P = "\<lambda>q. q_oid q \<noteq> q_oid item"
    let ?arr = "arrivals e item @ concat (map (arrivals e) rest)"
    have fa: "filter ?P ?arr = ?arr"
    proof (intro filter_True ballI)
      fix a assume "a \<in> set ?arr"
      then show "q_oid a \<noteq> q_oid item"
        using distinct_map_append_fresh [OF inv(1) _ inv(2)] by blast
    qed
    have "filter ?P (queue st @ ?arr) = filter ?P (queue st) @ ?arr"
      using fa by (metis filter_append)
    moreover have "distinct (map q_oid (filter ?P (queue st @ ?arr)))"
      using inv(1) by (intro distinct_map_filter)
    moreover have "queue st1 = filter ?P (queue st)" using q1 True by simp
    ultimately show ?thesis by (simp only:)
  qed
  have inv2: "batch_inv e rest st2"
    using d2 rest_in inv(5) by (auto simp: batch_inv_def st2_def)
  from Cons.IH [OF p3 inv2]
  have ih: "map fst rec3 = rest"
    "queue st3 = filter (\<lambda>q. q_oid q \<notin> removed_oids v rec3) (queue st2) @ concat (map (arrivals e) rest)"
    by auto
  have ro: "removed_oids v rec3 \<subseteq> q_oid ` set rest"
    using ih(1) by (force simp: removed_oids_def)
  have arr_keep: "filter (\<lambda>q. q_oid q \<notin> removed_oids v rec3) (arrivals e item) = arrivals e item"
  proof (intro filter_True ballI)
    fix a assume a: "a \<in> set (arrivals e item)"
    then have "a \<in> set (arrivals e item @ concat (map (arrivals e) rest))" by simp
    then have "\<And>x. x \<in> set (queue st) \<Longrightarrow> q_oid a \<noteq> q_oid x"
      using distinct_map_append_fresh [OF inv(1)] by blast
    then show "q_oid a \<notin> removed_oids v rec3" using ro inv(3) by auto
  qed
  have "queue st3 = filter (\<lambda>q. q_oid q \<notin> removed_oids v recd) (queue st)
           @ concat (map (arrivals e) (item # rest))"
    unfolding ih(2) st2_def res(1) removed_oids_Cons q1
    using arr_keep by (auto intro: filter_cong)
  then show ?case using res ih(1) by simp
qed


lemma process_batch_posts:
  "process_batch v e b st = (recd, st') \<Longrightarrow> posts st' = posts st @ published_posts recd"
proof (induction b arbitrary: st recd st')
  case Nil
  then show ?case by (simp add: published_posts_def)
next
  case (Cons item rest)
  obtain out st1 where p1: "process_item v e item st = (out, st1)" by (cases "process_item v e item st")
  define st2 where "st2 = st1\<lparr>queue := queue st1 @ arrivals e item\<rparr>"
  obtain rec3 st3 where p3: "process_batch v e rest st2 = (rec3, st3)"
    by (cases "process_batch v e rest st2")
  have res: "recd = (item, out) # rec3" "st' = st3"
    using Cons.prems(1) p1 p3 by (simp_all add: st2_def)
  have "posts st2 = posts st @ (case out of Published p \<Rightarrow> [p] | _ \<Rightarrow> [])"
    using process_item_posts [OF p1] by (simp add: st2_def split: outcome.splits)
  then show ?case using Cons.IH [OF p3] res by (simp add: published_posts_def)
qed

lemma process_batch_entry:
  "process_batch v e b st = (recd, st') \<Longrightarrow> (item, out) \<in> set recd \<Longrightarrow>
   \<exists>sti st1. set (posts st) \<subseteq> set (posts sti) \<and> process_item v e item sti = (out, st1)"
proof (induction b arbitrary: st recd st')
  case Nil
  then show ?case by simp
next
  case (Cons x rest)
  obtain o1 st1 where p1: "process_item v e x st = (o1, st1)" by (cases "process_item v e x st")
  define st2 where "st2 = st1\<lparr>queue := queue st1 @ arrivals e x\<rparr>"
  obtain rec3 st3 where p3: "process_batch v e rest st2 = (rec3, st3)"
    by (cases "process_batch v e rest st2")
  have res: "recd = (x, o1) # rec3"
    using Cons.prems(1) p1 p3 by (simp_all add: st2_def)
  show ?case
  proof (cases "(item, out) = (x, o1)")
    case True
    then show ?thesis using p1 by auto
  next
    case False
    then have "(item, out) \<in> set rec3" using Cons.prems(2) res by auto
    from Cons.IH [OF p3 this] obtain sti st1' where
      "set (posts st2) \<subseteq> set (posts sti)" "process_item v e item sti = (out, st1')" by blast
    moreover have "set (posts st) \<subseteq> set (posts st2)"
      using process_item_posts_mono [OF p1] by (simp add: st2_def)
    ultimately show ?thesis by blast
  qed
qed


lemma process_item_rewrite_null:
  assumes "rewrite e item = None"
  shows "fst (process_item v e item st) \<in> {Duplicate, RewriteFailed}"
  using assms by (simp add: process_item_def)

lemma oldest_three_facts:
  "set (oldest_three qs) \<subseteq> set qs" "length (oldest_three qs) \<le> 3"
  "distinct qs \<Longrightarrow> distinct (oldest_three qs)"
  using set_take_subset [of 3 "sort_key q_queuedAt qs"]
  by (auto simp: oldest_three_def)

lemma oldest_three_oldest:
  assumes "b \<in> set (oldest_three qs)" and "q \<in> set qs" and "q \<notin> set (oldest_three qs)"
  shows "q_queuedAt b \<le> q_queuedAt q"
proof -
  let ?ys = "sort_key q_queuedAt qs"
  have "q \<in> set (take 3 ?ys @ drop 3 ?ys)" using assms(2) by simp
  then have qd: "q \<in> set (drop 3 ?ys)" using assms(3) unfolding oldest_three_def set_append by blast
  have "sorted (map q_queuedAt (take 3 ?ys @ drop 3 ?ys))" by simp
  then have "\<forall>x \<in> set (map q_queuedAt (take 3 ?ys)). \<forall>y \<in> set (map q_queuedAt (drop 3 ?ys)). x \<le> y"
    unfolding map_append sorted_append by blast
  then show ?thesis using assms(1) qd unfolding oldest_three_def by auto
qed

lemma ids_unique_inv: "ids_unique e st \<Longrightarrow> batch_inv e (oldest_three (queue st)) st"
proof -
  assume u: "ids_unique e st"
  then have "distinct (map q_oid (queue st))" by (simp add: ids_unique_def)
  then have "distinct (queue st)" by (simp add: distinct_map)
  then show ?thesis using u oldest_three_facts [of "queue st"]
    by (simp add: batch_inv_def ids_unique_def)
qed

lemma batch_membership:
  assumes pb: "process_batch v e b st = (recd, st')" and inv: "batch_inv e b st"
    and ent: "(item, out) \<in> set recd"
  shows "item \<in> set (queue st') \<longleftrightarrow> \<not> deletes v out"
proof -
  from process_batch_queue [OF pb inv]
  have lg: "map fst recd = b"
    and q: "queue st' = filter (\<lambda>q. q_oid q \<notin> removed_oids v recd) (queue st)
              @ concat (map (arrivals e) b)" by simp_all
  have d: "distinct (map q_oid (queue st @ concat (map (arrivals e) b)))"
    and sub: "set b \<subseteq> set (queue st)" and db: "distinct b"
    using inv by (simp_all add: batch_inv_def)
  have inb: "\<And>i o'. (i, o') \<in> set recd \<Longrightarrow> i \<in> set (queue st)"
  proof -
    fix i o' assume "(i, o') \<in> set recd"
    then have "fst (i, o') \<in> set (map fst recd)" by (simp only: set_map) (rule imageI)
    then show "i \<in> set (queue st)" using lg sub by auto
  qed
  have iq: "item \<in> set (queue st)" using ent by (rule inb)
  have narr: "item \<notin> set (concat (map (arrivals e) b))"
  proof
    assume "item \<in> set (concat (map (arrivals e) b))"
    from distinct_map_append_fresh [OF d this iq] show False by simp
  qed
  have inj: "inj_on q_oid (set (queue st))" using d by (simp add: distinct_map)
  have dl: "distinct (map fst recd)" using lg db by simp
  have uniq: "\<And>i' o'. (i', o') \<in> set recd \<Longrightarrow> q_oid i' = q_oid item \<Longrightarrow> o' = out"
  proof -
    fix i' o' assume a: "(i', o') \<in> set recd" "q_oid i' = q_oid item"
    have "i' \<in> set (queue st)" using a(1) by (rule inb)
    with inj a(2) iq have "i' = item" by (meson inj_onD)
    then have "(item, o') \<in> set recd" using a(1) by simp
    with dl show "o' = out" using ent by (rule eq_key_imp_eq_value)
  qed
  have r: "q_oid item \<in> removed_oids v recd \<longleftrightarrow> deletes v out"
  proof
    assume "q_oid item \<in> removed_oids v recd"
    then obtain i' o' where "(i', o') \<in> set recd" "q_oid i' = q_oid item" "deletes v o'"
      unfolding removed_oids_def by force
    then show "deletes v out" using uniq by blast
  next
    assume "deletes v out"
    then show "q_oid item \<in> removed_oids v recd"
      unfolding removed_oids_def using ent by blast
  qed
  have "item \<in> set (queue st') \<longleftrightarrow> q_oid item \<notin> removed_oids v recd"
    unfolding q using iq narr by simp
  then show ?thesis using r by simp
qed


lemma worker_cycle_log:
  assumes "ids_unique e st" and "worker_cycle v e st = (recd, st')"
  shows "map fst recd = oldest_three (queue st)"
  using process_batch_queue [OF assms(2) [unfolded worker_cycle_def] ids_unique_inv [OF assms(1)]]
  by simp

lemma worker_cycle_membership:
  assumes "ids_unique e st" and "worker_cycle v e st = (recd, st')" and "(item, out) \<in> set recd"
  shows "item \<in> set (queue st') \<longleftrightarrow> \<not> deletes v out"
  using batch_membership [OF assms(2) [unfolded worker_cycle_def] ids_unique_inv [OF assms(1)] assms(3)] .

lemma worker_cycle_entry:
  assumes "ids_unique e st" and "worker_cycle v e st = (recd, st')"
    and "item \<in> set (oldest_three (queue st))"
  shows "\<exists>out. (item, out) \<in> set recd"
proof -
  have "item \<in> set (map fst recd)" using worker_cycle_log [OF assms(1,2)] assms(3) by simp
  then show ?thesis by auto
qed





lemma worker_cycle_entry_state:
  assumes "worker_cycle v e st = (recd, st')" and "(item, out) \<in> set recd"
  shows "\<exists>sti st1. set (posts st) \<subseteq> set (posts sti) \<and> process_item v e item sti = (out, st1)"
  using process_batch_entry [OF assms(1) [unfolded worker_cycle_def] assms(2)] .



text \<open>
  C3. An item of the batch for which the rewrite engine returns \<^verbatim>\<open>null\<close> is gone from the
  queue after the cycle and no post is saved for it: its outcome is the failed rewrite
  (or the duplicate skip, when the engine was not even asked), handling it leaves the
  posts as they were, and the posts added by the cycle are those of the \<open>Published\<close>
  outcomes.
\<close>

theorem worker_drops_failed_rewrite:
  assumes "ids_unique e st" and "worker_cycle v e st = (recd, st')"
    and "item \<in> set (oldest_three (queue st))" and "rewrite e item = None"
  shows "item \<notin> set (queue st') \<and>
         (\<exists>out. (item, out) \<in> set recd) \<and>
         (\<forall>out. (item, out) \<in> set recd \<longrightarrow> out = RewriteFailed \<or> out = Duplicate) \<and>
         (\<forall>s. posts (snd (process_item v e item s)) = posts s) \<and>
         (\<forall>s. findDuplicate (normalizeUrl (str_of (q_url item))) (posts s) = None \<longrightarrow>
               process_item v e item s = (RewriteFailed, remove_item item s)) \<and>
         posts st' = posts st @ published_posts recd"
proof -
  obtain out where ent: "(item, out) \<in> set recd"
    using worker_cycle_entry [OF assms(1,2,3)] by blast
  have kinds: "\<And>out'. (item, out') \<in> set recd \<Longrightarrow> out' = RewriteFailed \<or> out' = Duplicate"
  proof -
    fix out' assume "(item, out') \<in> set recd"
    then obtain sti st1 where "process_item v e item sti = (out', st1)"
      using worker_cycle_entry_state [OF assms(2)] by blast
    then show "out' = RewriteFailed \<or> out' = Duplicate"
      using process_item_rewrite_null [OF assms(4), of v sti] by auto
  qed
  have "deletes v out" using kinds [OF ent] by (auto simp: deletes_def)
  then have gone: "item \<notin> set (queue st')"
    using worker_cycle_membership [OF assms(1,2) ent] by simp
  have same: "\<forall>s. posts (snd (process_item v e item s)) = posts s"
    using assms(4) by (simp add: process_item_def remove_item_def)
  have direct: "\<forall>s. findDuplicate (normalizeUrl (str_of (q_url item))) (posts s) = None \<longrightarrow>
               process_item v e item s = (RewriteFailed, remove_item item s)"
    using assms(4) by (simp add: process_item_def)
  have "posts st' = posts st @ published_posts recd"
    using process_batch_posts [OF assms(2) [unfolded worker_cycle_def]] .
  then show ?thesis using ent gone kinds same direct by blast
qed

theorem worker_drops_failed_rewrite_witness:
  "worker_cycle Monolith (demo_env None (\<lambda>_. []))
      \<lparr>queue = [demo_item 1 None 10], posts = [demo_post 5 None]\<rparr>
     = ([(demo_item 1 None 10, RewriteFailed)], \<lparr>queue = [], posts = [demo_post 5 None]\<rparr>)"
proof -
  let ?e = "demo_env None (\<lambda>_. [])"
  let ?item = "demo_item 1 None 10"
  let ?st = "\<lparr>queue = [?item], posts = [demo_post 5 None]\<rparr>"
  obtain recd st' where c: "worker_cycle Monolith ?e ?st = (recd, st')"
    by (cases "worker_cycle Monolith ?e ?st")
  have u: "ids_unique ?e ?st" by code_simp
  have b: "?item \<in> set (oldest_three (queue ?st))" by code_simp
  have r: "rewrite ?e ?item = None" by (simp add: demo_env_def)
  have f: "findDuplicate (normalizeUrl (str_of (q_url ?item))) (posts ?st) = None" by code_simp
  from worker_drops_failed_rewrite [OF u c b r]
  have d: "process_item Monolith ?e ?item ?st = (RewriteFailed, remove_item ?item ?st)"
    using f by blast
  show ?thesis
    using d by (simp add: worker_cycle_def oldest_three_def demo_item_def demo_env_def remove_item_def)
qed

text \<open>
  C10. The batch is at most three documents of the queue, none younger than a document
  left out. After the cycle the documents outside the batch are exactly those that were
  outside it before, in the same order and unchanged, followed by the documents that
  arrived during the cycle; so every document the cycle deleted belongs to the batch.
\<close>

theorem worker_cycle_frame:
  assumes "ids_unique e st" and "worker_cycle v e st = (recd, st')"
  shows "length (oldest_three (queue st)) \<le> 3 \<and>
         set (oldest_three (queue st)) \<subseteq> set (queue st) \<and>
         (\<forall>b \<in> set (oldest_three (queue st)). \<forall>q \<in> set (queue st) - set (oldest_three (queue st)).
             q_queuedAt b \<le> q_queuedAt q) \<and>
         filter (\<lambda>q. q \<notin> set (oldest_three (queue st))) (queue st')
           = filter (\<lambda>q. q \<notin> set (oldest_three (queue st))) (queue st)
               @ concat (map (arrivals e) (oldest_three (queue st))) \<and>
         set (queue st) - set (queue st') \<subseteq> set (oldest_three (queue st))"
proof -
  let ?b = "oldest_three (queue st)"
  let ?arr = "concat (map (arrivals e) ?b)"
  let ?out = "\<lambda>q. q \<notin> set ?b"
  have inv: "batch_inv e ?b st" using assms(1) by (rule ids_unique_inv)
  from process_batch_queue [OF assms(2) [unfolded worker_cycle_def] inv]
  have lg: "map fst recd = ?b"
    and q: "queue st' = filter (\<lambda>q. q_oid q \<notin> removed_oids v recd) (queue st) @ ?arr"
    by simp_all
  have d: "distinct (map q_oid (queue st @ ?arr))" and sub: "set ?b \<subseteq> set (queue st)"
    using inv by (simp_all add: batch_inv_def)
  have inj: "inj_on q_oid (set (queue st))" using d by (simp add: distinct_map)
  have arr_out: "filter ?out ?arr = ?arr"
  proof (intro filter_True ballI)
    fix a assume a: "a \<in> set ?arr"
    show "a \<notin> set ?b"
    proof
      assume "a \<in> set ?b"
      then have "a \<in> set (queue st)" using sub by blast
      from distinct_map_append_fresh [OF d a this] show False by simp
    qed
  qed
  have ro: "removed_oids v recd \<subseteq> q_oid ` set ?b"
  proof
    fix x assume "x \<in> removed_oids v recd"
    then obtain item out where io: "(item, out) \<in> set recd" "x = q_oid item"
      unfolding removed_oids_def by blast
    then have "fst (item, out) \<in> set (map fst recd)" by (simp only: set_map) (rule imageI)
    then show "x \<in> q_oid ` set ?b" using lg io(2) by simp
  qed
  have keep: "\<And>x. x \<in> set (queue st) \<Longrightarrow> x \<notin> set ?b \<Longrightarrow> q_oid x \<notin> removed_oids v recd"
  proof
    fix x assume x: "x \<in> set (queue st)" "x \<notin> set ?b" "q_oid x \<in> removed_oids v recd"
    then obtain b where b: "b \<in> set ?b" "q_oid x = q_oid b" using ro by blast
    then have "b \<in> set (queue st)" using sub by blast
    with inj x(1) b(2) have "x = b" by (meson inj_onD)
    then show False using x(2) b(1) by simp
  qed
  have "filter ?out (filter (\<lambda>q. q_oid q \<notin> removed_oids v recd) (queue st)) = filter ?out (queue st)"
    unfolding filter_filter using keep by (intro filter_cong) auto
  then have frame: "filter ?out (queue st') = filter ?out (queue st) @ ?arr"
    unfolding q filter_append arr_out by simp
  have del: "set (queue st) - set (queue st') \<subseteq> set ?b"
  proof
    fix x assume x: "x \<in> set (queue st) - set (queue st')"
    show "x \<in> set ?b"
    proof (rule ccontr)
      assume "x \<notin> set ?b"
      then have "x \<in> set (filter ?out (queue st) @ ?arr)" using x by simp
      then have "x \<in> set (filter ?out (queue st'))" using frame by simp
      then show False using x by simp
    qed
  qed
  have old: "\<forall>b \<in> set ?b. \<forall>q \<in> set (queue st) - set ?b. q_queuedAt b \<le> q_queuedAt q"
    using oldest_three_oldest by blast
  show ?thesis
    using oldest_three_facts(2) [of "queue st"] sub old frame del by blast
qed

theorem worker_cycle_frame_witness:
  "queue (snd (worker_cycle Monolith
       (demo_env (Some (demo_gemini None)) (\<lambda>item. if q_oid item = 2 then [demo_item 9 None 99] else []))
       \<lparr>queue = [demo_item 1 None 50, demo_item 2 None 20, demo_item 3 None 40,
                 demo_item 4 None 10, demo_item 5 None 30], posts = []\<rparr>))
   = [demo_item 1 None 50, demo_item 3 None 40, demo_item 9 None 99]"
proof -
  let ?e = "demo_env (Some (demo_gemini None)) (\<lambda>item. if q_oid item = 2 then [demo_item 9 None 99] else [])"
  let ?st = "\<lparr>queue = [demo_item 1 None 50, demo_item 2 None 20, demo_item 3 None 40,
                 demo_item 4 None 10, demo_item 5 None 30], posts = []\<rparr>"
  obtain recd st' where c: "worker_cycle Monolith ?e ?st = (recd, st')"
    by (cases "worker_cycle Monolith ?e ?st")
  have u: "ids_unique ?e ?st" by code_simp
  have "set (queue ?st) - set (queue st') \<subseteq> set (oldest_three (queue ?st))"
    using worker_cycle_frame [OF u c] by blast
  moreover have "queue (snd (worker_cycle Monolith ?e ?st))
      = [demo_item 1 None 50, demo_item 3 None 40, demo_item 9 None 99]" by code_simp
  ultimately show ?thesis by simp
qed

text \<open>
  C9 (as amended). The post's image-search slug is the engine's slug when that has at
  least three characters, else the slug extracted from the item's URL when that is not
  empty, else the variant's fixed fallback: \<^verbatim>\<open>latest-telugu-news\<close> in the monolithic
  servers, \<^verbatim>\<open>latest-news\<close> in the worker service. An item with no URL and an empty engine
  slug gets the fallback, and a post whose engine answer names no category gets the
  categories \<^verbatim>\<open>["General"]\<close>.
\<close>

theorem worker_image_search_slug:
  "p_imageSearchSlug (build_post v e item g) =
     (if 3 \<le> length (str_of (g_slug_en g)) then str_of (g_slug_en g)
      else if extractSlugFromUrl (str_of (q_url item)) \<noteq> []
           then extractSlugFromUrl (str_of (q_url item))
           else (case v of Monolith \<Rightarrow> ''latest-telugu-news'' | Service \<Rightarrow> ''latest-news'')) \<and>
   (\<not> truthy (q_url item) \<and> \<not> truthy (g_slug_en g) \<longrightarrow>
      p_imageSearchSlug (build_post v e item g)
        = (case v of Monolith \<Rightarrow> ''latest-telugu-news'' | Service \<Rightarrow> ''latest-news'')) \<and>
   (\<not> truthy (g_category g) \<longrightarrow> p_categories (build_post v e item g) = [''General''])"
proof -
  have a: "\<not> truthy (q_url item) \<Longrightarrow> extractSlugFromUrl (str_of (q_url item)) = []"
    by (auto simp: truthy_def str_of_def extractSlugFromUrl_def split: option.splits)
  have b: "\<not> truthy (g_slug_en g) \<Longrightarrow> str_of (g_slug_en g) = []"
    by (auto simp: truthy_def str_of_def split: option.splits)
  have c: "p_imageSearchSlug (build_post v e item g) =
     (if 3 \<le> length (str_of (g_slug_en g)) then str_of (g_slug_en g)
      else if extractSlugFromUrl (str_of (q_url item)) \<noteq> []
           then extractSlugFromUrl (str_of (q_url item))
           else (case v of Monolith \<Rightarrow> ''latest-telugu-news'' | Service \<Rightarrow> ''latest-news''))"
    by (cases v) (auto simp: build_post_def final_search_slug_def fallback_slug_def Let_def)
  have d: "\<not> truthy (g_category g) \<Longrightarrow> p_categories (build_post v e item g) = [''General'']"
    by (simp add: build_post_def or_else_def)
  show ?thesis using a b c d by simp
qed

theorem worker_image_search_slug_witness:
  "p_imageSearchSlug (build_post Monolith (demo_env None (\<lambda>_. [])) (demo_item 1 None 10)
      (demo_gemini (Some []))) = ''latest-telugu-news'' \<and>
   p_categories (build_post Monolith (demo_env None (\<lambda>_. [])) (demo_item 1 None 10)
      (demo_gemini (Some []))) = [''General'']"
proof -
  have 1: "\<not> truthy (q_url (demo_item 1 None 10))" by (simp add: truthy_def demo_item_def)
  have 2: "\<not> truthy (g_slug_en (demo_gemini (Some [])))" by (simp add: truthy_def demo_gemini_def)
  have 3: "\<not> truthy (g_category (demo_gemini (Some [])))" by (simp add: truthy_def demo_gemini_def)
  show ?thesis
    using worker_image_search_slug [of Monolith "demo_env None (\<lambda>_. [])" "demo_item 1 None 10"
        "demo_gemini (Some [])", THEN conjunct2] 1 2 3
    by simp
qed

text \<open>
  C9 as stated fails for the worker service: its fallback is \<^verbatim>\<open>latest-news\<close>, so the
  manual item with no URL and an empty engine slug is published with that slug.
\<close>

theorem worker_service_fallback_counterexample:
  "worker_cycle Service (demo_env (Some (demo_gemini (Some []))) (\<lambda>_. []))
       \<lparr>queue = [demo_item 1 None 10], posts = []\<rparr>
     = ([(demo_item 1 None 10,
          Published (build_post Service (demo_env (Some (demo_gemini (Some []))) (\<lambda>_. []))
                       (demo_item 1 None 10) (demo_gemini (Some []))))],
        \<lparr>queue = [],
          posts = [build_post Service (demo_env (Some (demo_gemini (Some []))) (\<lambda>_. []))
                       (demo_item 1 None 10) (demo_gemini (Some []))]\<rparr>) \<and>
   p_imageSearchSlug (build_post Service (demo_env (Some (demo_gemini (Some []))) (\<lambda>_. []))
                       (demo_item 1 None 10) (demo_gemini (Some []))) = ''latest-news'' \<and>
   ''latest-news'' \<noteq> ''latest-telugu-news''"
  by code_simp

section \<open>Facts about the feed fetcher\<close>

lemma foldl_best_start:
  fixes r :: rat
  shows "r \<le> foldl (\<lambda>best x. if x > best then x else best) r rs"
proof (induction rs arbitrary: r)
  case Nil
  show ?case by simp
next
  case (Cons a rs)
  have "r \<le> (if a > r then a else r)" by simp
  also have "\<dots> \<le> foldl (\<lambda>best x. if x > best then x else best) (if a > r then a else r) rs"
    by (rule Cons.IH)
  finally show ?case by simp
qed

lemma foldl_best_member:
  fixes r :: rat
  shows "x \<in> set rs \<Longrightarrow> x \<le> foldl (\<lambda>best x. if x > best then x else best) r rs"
proof (induction rs arbitrary: r)
  case Nil
  then show ?case by simp
next
  case (Cons a rs)
  show ?case
  proof (cases "x = a")
    case True
    have "a \<le> (if a > r then a else r)" by simp
    also have "\<dots> \<le> foldl (\<lambda>best x. if x > best then x else best) (if a > r then a else r) rs"
      by (rule foldl_best_start)
    finally show ?thesis using True by simp
  next
    case False
    then have "x \<in> set rs" using Cons.prems by simp
    from Cons.IH [OF this, of "if a > r then a else r"] show ?thesis by simp
  qed
qed

lemma foldl_best_bound:
  fixes r :: rat
  shows "r \<le> c \<Longrightarrow> \<forall>x \<in> set rs. x \<le> c \<Longrightarrow>
         foldl (\<lambda>best x. if x > best then x else best) r rs \<le> c"
  by (induction rs arbitrary: r) auto

lemma bestMatch_rating_ge:
  assumes "t \<in> set ts"
  shows "compareTwoStrings m t \<le> bestMatch_rating m ts"
proof -
  obtain r rs where rs: "map (compareTwoStrings m) ts = r # rs"
    using assms by (cases ts) auto
  have "compareTwoStrings m t \<in> set (r # rs)" using assms rs [symmetric] by simp
  then show ?thesis
    using foldl_best_start [of r rs] foldl_best_member [of "compareTwoStrings m t" rs r]
    by (auto simp: bestMatch_rating_def rs)
qed

lemma bestMatch_rating_le:
  assumes "\<forall>t \<in> set ts. compareTwoStrings m t \<le> c" and "ts \<noteq> []"
  shows "bestMatch_rating m ts \<le> c"
proof -
  obtain r rs where rs: "map (compareTwoStrings m) ts = r # rs"
    using assms(2) by (cases ts) auto
  have "\<forall>x \<in> set (r # rs). x \<le> c" using assms(1) rs [symmetric] by auto
  then show ?thesis
    using foldl_best_bound [of r c rs] by (simp add: bestMatch_rating_def rs)
qed

lemma rss_item_titles_mono:
  "set (existingTitles acc) \<subseteq> set (existingTitles (rss_item e f item acc))"
  by (auto simp: rss_item_def Let_def)

lemma rss_items_titles_mono:
  "set (existingTitles acc) \<subseteq> set (existingTitles (fold (\<lambda>(f, item). rss_item e f item) es acc))"
proof (induction es arbitrary: acc)
  case Nil
  show ?case by simp
next
  case (Cons x es)
  obtain f item where x: "x = (f, item)" by (cases x)
  show ?case using rss_item_titles_mono [of acc e f item] Cons.IH [of "rss_item e f item acc"]
    by (auto simp: x)
qed

lemma rss_item_accept:
  assumes "normalizeUrl (str_of (e_link item)) \<notin> set (existingUrls acc)"
    and "\<forall>t \<in> set (existingTitles acc). compareTwoStrings (e_title item) t \<le> 65 / 100"
  shows "rss_item e f item acc =
     \<lparr>existingTitles = existingTitles acc @ [e_title item],
      existingUrls = existingUrls acc @ [normalizeUrl (str_of (e_link item))],
      acc_queue = acc_queue acc @ [new_queue_item e f (totalQueued acc) item],
      totalQueued = totalQueued acc + 1\<rparr>"
proof -
  have "\<not> is_near_duplicate acc item"
    using bestMatch_rating_le [OF assms(2)] by (auto simp: is_near_duplicate_def)
  then show ?thesis using assms(1) by (simp add: rss_item_def Let_def)
qed

lemma rss_item_skip_similar:
  assumes "t \<in> set (existingTitles acc)" and "compareTwoStrings (e_title item) t > 65 / 100"
  shows "rss_item e f item acc = acc"
proof -
  have "bestMatch_rating (e_title item) (existingTitles acc) > 65 / 100"
    using bestMatch_rating_ge [OF assms(1), of "e_title item"] assms(2) by simp
  then have "is_near_duplicate acc item" using assms(1) by (auto simp: is_near_duplicate_def)
  then show ?thesis by (simp add: rss_item_def Let_def)
qed

lemma rss_feeds_flat:
  "fold (rss_feed e) feeds acc = fold (\<lambda>(f, item). rss_item e f item) (fetch_order e feeds) acc"
proof (induction feeds arbitrary: acc)
  case Nil
  show ?case by (simp add: fetch_order_def)
next
  case (Cons f feeds)
  have one: "rss_feed e f acc = fold (\<lambda>(f, item). rss_item e f item)
       (case parseURL e (f_url f) of None \<Rightarrow> [] | Some items \<Rightarrow> map (Pair f) (take 5 items)) acc"
    by (simp add: rss_feed_def fold_map comp_def split: option.splits)
  show ?case
    using Cons.IH [of "rss_feed e f acc"] one by (simp add: fetch_order_def)
qed

text \<open>
  C6 (as amended). In one fetch cycle, let a first entry have no prior record when its
  turn comes (its normalised link is not among the known URLs and no known title rates
  above 0.65 against its title) and let a second entry, later in fetch order, have a
  title whose similarity to the first one's is strictly greater than 0.65. Then the first
  entry is enqueued, handling the second entry changes nothing (it is not enqueued), and
  the cycle ends as if the second entry had not been there.
\<close>

theorem rss_near_duplicate_skipped:
  assumes order: "fetch_order e feeds = pre @ (f1, e1) # mid @ (f2, e2) # rest"
    and acc1: "acc1 = fold (\<lambda>(f, item). rss_item e f item) pre (rss_start e (db pr))"
    and new_url: "normalizeUrl (str_of (e_link e1)) \<notin> set (existingUrls acc1)"
    and new_title: "\<forall>t \<in> set (existingTitles acc1). compareTwoStrings (e_title e1) t \<le> 65 / 100"
    and similar: "compareTwoStrings (e_title e2) (e_title e1) > 65 / 100"
    and idle: "\<not> isRSSFetching pr"
    and acc3: "acc3 = fold (\<lambda>(f, item). rss_item e f item) mid (rss_item e f1 e1 acc1)"
    and final: "final = fold (\<lambda>(f, item). rss_item e f item) rest acc3"
  shows "acc_queue (rss_item e f1 e1 acc1)
           = acc_queue acc1 @ [new_queue_item e f1 (totalQueued acc1) e1] \<and>
         rss_item e f2 e2 acc3 = acc3 \<and>
         fetchAndQueueRSS e feeds pr
           = (totalQueued final,
              \<lparr>isRSSFetching = False, db = (db pr)\<lparr>queue := acc_queue final\<rparr>\<rparr>)"
proof -
  let ?step = "\<lambda>(f, item). rss_item e f item"
  have a2: "rss_item e f1 e1 acc1 =
     \<lparr>existingTitles = existingTitles acc1 @ [e_title e1],
      existingUrls = existingUrls acc1 @ [normalizeUrl (str_of (e_link e1))],
      acc_queue = acc_queue acc1 @ [new_queue_item e f1 (totalQueued acc1) e1],
      totalQueued = totalQueued acc1 + 1\<rparr>"
    using new_url new_title by (rule rss_item_accept)
  then have "e_title e1 \<in> set (existingTitles (rss_item e f1 e1 acc1))" by simp
  then have "e_title e1 \<in> set (existingTitles acc3)"
    unfolding acc3 using rss_items_titles_mono by blast
  then have skip: "rss_item e f2 e2 acc3 = acc3" using similar by (rule rss_item_skip_similar)
  have "fold (rss_feed e) feeds (rss_start e (db pr)) = fold ?step (fetch_order e feeds) (rss_start e (db pr))"
    by (rule rss_feeds_flat)
  also have "\<dots> = fold ?step rest (rss_item e f2 e2 acc3)"
    unfolding order acc3 acc1 by simp
  also have "\<dots> = final" unfolding skip final ..
  finally have "fold (rss_feed e) feeds (rss_start e (db pr)) = final" .
  then have "fetchAndQueueRSS e feeds pr
           = (totalQueued final, \<lparr>isRSSFetching = False, db = (db pr)\<lparr>queue := acc_queue final\<rparr>\<rparr>)"
    using idle by (simp add: fetchAndQueueRSS_def rss_guard_def rss_finally_def Let_def)
  then show ?thesis using a2 skip by simp
qed

theorem rss_near_duplicate_skipped_witness:
  "fst (fetchAndQueueRSS (demo_rss_env ''CM opens new bridge in Delhi'' ''CM opens the new bridge'')
          demo_feeds \<lparr>isRSSFetching = False, db = \<lparr>queue = [], posts = []\<rparr>\<rparr>) = 1"
proof -
  let ?e = "demo_rss_env ''CM opens new bridge in Delhi'' ''CM opens the new bridge''"
  let ?pr = "\<lparr>isRSSFetching = False, db = \<lparr>queue = [], posts = []\<rparr>\<rparr>"
  let ?f1 = "\<lparr>f_name = ''Feed A'', f_url = ''https://a.example/rss''\<rparr>"
  let ?f2 = "\<lparr>f_name = ''Feed B'', f_url = ''https://b.example/rss''\<rparr>"
  let ?e1 = "demo_entry ''CM opens new bridge in Delhi'' ''https://a.example/story-one''"
  let ?e2 = "demo_entry ''CM opens the new bridge'' ''https://b.example/story-two''"
  let ?acc1 = "rss_start ?e (db ?pr)"
  have order: "fetch_order ?e demo_feeds = [] @ (?f1, ?e1) # [] @ (?f2, ?e2) # []"
    by (simp add: fetch_order_def demo_feeds_def demo_rss_env_def)
  have acc1: "?acc1 = fold (\<lambda>(f, item). rss_item ?e f item) [] (rss_start ?e (db ?pr))" by simp
  have st: "existingUrls ?acc1 = []" "existingTitles ?acc1 = []" "totalQueued ?acc1 = 0"
    by (simp_all add: rss_start_def recentPosts_def)
  have new_url: "normalizeUrl (str_of (e_link ?e1)) \<notin> set (existingUrls ?acc1)"
    unfolding st by simp
  have new_title: "\<forall>t \<in> set (existingTitles ?acc1). compareTwoStrings (e_title ?e1) t \<le> 65 / 100"
    unfolding st by simp
  have similar: "compareTwoStrings (e_title ?e2) (e_title ?e1) > 65 / 100" by code_simp
  have idle: "\<not> isRSSFetching ?pr" by simp
  have tq: "totalQueued (rss_item ?e ?f1 ?e1 ?acc1) = 1"
    using rss_item_accept [OF new_url new_title, of ?e ?f1] st(3) by simp
  from rss_near_duplicate_skipped [OF order acc1 new_url new_title similar idle refl refl]
  show ?thesis using tq by simp
qed

text \<open>
  C6 as stated fails at the threshold itself: two titles that rate exactly 0.65 against
  each other are both enqueued, because the fetcher skips only above 0.65.
\<close>

theorem rss_threshold_counterexample:
  "compareTwoStrings ''CM inspects new bridge'' ''CM opens new bridge in Delhi'' = 65 / 100 \<and>
   fst (fetchAndQueueRSS (demo_rss_env ''CM opens new bridge in Delhi'' ''CM inspects new bridge'')
          demo_feeds \<lparr>isRSSFetching = False, db = \<lparr>queue = [], posts = []\<rparr>\<rparr>) = 2 \<and>
   map q_url (queue (db (snd (fetchAndQueueRSS
          (demo_rss_env ''CM opens new bridge in Delhi'' ''CM inspects new bridge'')
          demo_feeds \<lparr>isRSSFetching = False, db = \<lparr>queue = [], posts = []\<rparr>\<rparr>))))
     = [Some ''https://a.example/story-one'', Some ''https://b.example/story-two'']"
  by code_simp

lemma lock_invariant:
  "lock_reachable s \<Longrightarrow> snd s \<le> 1 \<and> (isRSSFetching (fst s) \<longleftrightarrow> snd s = 1)"
proof (induction rule: lock_reachable.induct)
  case (start pr)
  then show ?case by simp
next
  case (step s s')
  from step.hyps(2) step.IH show ?case
    by (cases rule: lock_step.cases)
       (auto simp: rss_guard_def rss_finally_def split: if_splits)
qed

text \<open>
  C4. A fetch cycle invoked while the flag is set returns 0 and leaves the process (the
  queue, the posts, the flag) as it was. In every state the event loop can reach, at most
  one cycle is in flight, and the flag is set exactly while one is.
\<close>

theorem rss_fetch_guard:
  "(isRSSFetching pr \<longrightarrow> fetchAndQueueRSS e feeds pr = (0, pr)) \<and>
   (lock_reachable (pr, n) \<longrightarrow> n \<le> 1 \<and> (isRSSFetching pr \<longleftrightarrow> n = 1))"
  using lock_invariant [of "(pr, n)"] by (simp add: fetchAndQueueRSS_def rss_guard_def)

theorem rss_fetch_guard_witness:
  "fetchAndQueueRSS (demo_rss_env ''CM opens new bridge in Delhi'' ''CM inspects new bridge'')
       demo_feeds \<lparr>isRSSFetching = True, db = \<lparr>queue = [demo_item 1 None 10], posts = []\<rparr>\<rparr>
     = (0, \<lparr>isRSSFetching = True, db = \<lparr>queue = [demo_item 1 None 10], posts = []\<rparr>\<rparr>) \<and>
   lock_reachable (\<lparr>isRSSFetching = True, db = \<lparr>queue = [demo_item 1 None 10], posts = []\<rparr>\<rparr>, 1)"
proof -
  let ?idle = "\<lparr>isRSSFetching = False, db = \<lparr>queue = [demo_item 1 None 10], posts = []\<rparr>\<rparr>"
  let ?pr = "\<lparr>isRSSFetching = True, db = \<lparr>queue = [demo_item 1 None 10], posts = []\<rparr>\<rparr>"
  have "rss_guard ?idle = Some ?pr" by (simp add: rss_guard_def)
  then have "lock_step (?idle, 0) (?pr, Suc 0)" by (rule lock_step.enter)
  moreover have "lock_reachable (?idle, 0)" by (rule lock_reachable.start) simp
  ultimately have r: "lock_reachable (?pr, 1)"
    using lock_reachable.step by fastforce
  show ?thesis
    using rss_fetch_guard [of ?pr
        "demo_rss_env ''CM opens new bridge in Delhi'' ''CM inspects new bridge''" demo_feeds 1] r
    by simp
qed

section \<open>Manual ingestion\<close>

lemma add_content_rejects_empty:
  "\<not> truthy (b_content body) \<Longrightarrow> \<not> truthy (b_url body) \<Longrightarrow>
   add_content_to_queue h e body st = (Error_json 400 ''No content/url'', st)"
  by (simp add: add_content_to_queue_def)

text \<open>
  The copies in index.js and at server.js:4952 enqueue one item and answer with success;
  the latter takes the related stories from the body, and each of them needs a title.
\<close>

lemma add_content_sibling_copies:
  assumes "truthy (b_content body) \<or> truthy (b_url body)"
    and "h \<noteq> Server_1060"
    and "\<not> list_ex (\<lambda>q. q_id q = h_id e) (queue st)"
    and "h = Index_484 \<or> untitled (case b_relatedStories body of None \<Rightarrow> [] | Some rs \<Rightarrow> rs) = []"
  shows "\<exists>item. build_queue_item h e body = Inr item \<and>
           add_content_to_queue h e body st
             = (Success_json (h_id e), st\<lparr>queue := queue st @ [item]\<rparr>)"
  using assms
  by (cases h) (auto simp: add_content_to_queue_def build_queue_item_def related_of_def
                            Queue_create_def untitled_def)

lemma add_content_untitled_story:
  assumes "truthy (b_content body) \<or> truthy (b_url body)"
    and "b_relatedStories body = Some rs" and "untitled rs \<noteq> []"
  shows "add_content_to_queue Server_4952 e body st
           = (Error_json 500 (message (QueueValidationError (untitled rs))), st)"
  using assms
  by (auto simp: add_content_to_queue_def build_queue_item_def related_of_def Queue_create_def)

text \<open>
  C8, the copy at server.js:1060. A body with content gets the 500 response with the
  message of the reference error, and nothing is enqueued.
\<close>

theorem add_content_server_1060_fails:
  "add_content_to_queue Server_1060 demo_handler_env
       (demo_body (Some ''Some pasted text of a story'') None) \<lparr>queue = [], posts = []\<rparr>
     = (Error_json 500 ''relatedStories is not defined'', \<lparr>queue = [], posts = []\<rparr>) \<and>
   add_content_to_queue Index_484 demo_handler_env
       (demo_body (Some ''Some pasted text of a story'') None) \<lparr>queue = [], posts = []\<rparr>
     = (Success_json ''65f0a1'',
        \<lparr>queue = [\<lparr>q_oid = 7, q_id = ''65f0a1'', q_text = ''Some pasted text of a story'',
                    q_url = Some [], q_imageUrl = None, q_media = [], q_extended_media = None,
                    q_relatedStories = [], q_source = Some ''Manual Paste'',
                    q_user_name = Some ''Admin'', q_queuedAt = 1000\<rparr>],
          posts = []\<rparr>)"
  by code_simp

lemma add_content_server_1060_always_fails:
  "truthy (b_content body) \<or> truthy (b_url body) \<Longrightarrow>
   add_content_to_queue Server_1060 e body st = (Error_json 500 ''relatedStories is not defined'', st)"
  by (auto simp: add_content_to_queue_def build_queue_item_def related_of_def)

end
